theory Spec2Isabelle
  imports Main
begin

section \<open>Strings\<close>

text \<open>
  A JavaScript string is modelled as a \<^typ>\<open>string\<close>: the list of its code units, for the
  code units below 256. The character classes of the regular expressions are given on that
  range; the bullet U+2022 of the list pattern lies outside it and is noted where it occurs.
\<close>

definition nl :: char where
  "nl = CHR 0x0A"

definition dq :: char where
  "dq = CHR 0x22"

definition bq :: char where
  "bq = CHR 0x60"

text \<open>White space of \<open>String.prototype.trim\<close> and of the class \<open>\s\<close>.\<close>

definition is_space :: "char \<Rightarrow> bool" where
  "is_space c = (c \<in> set [CHR 0x09, CHR 0x0A, CHR 0x0B, CHR 0x0C, CHR 0x0D, CHR 0x20, CHR 0xA0])"

text \<open>Line terminators: what \<open>.\<close> does not match and what \<open>^\<close>, \<open>$\<close> look at under the flag \<open>m\<close>.\<close>

definition is_line_end :: "char \<Rightarrow> bool" where
  "is_line_end c = (c = CHR 0x0A \<or> c = CHR 0x0D)"

definition is_digit :: "char \<Rightarrow> bool" where
  "is_digit c = (let n = of_char c :: nat in 48 \<le> n \<and> n \<le> 57)"

definition is_word :: "char \<Rightarrow> bool" where
  "is_word c = (let n = of_char c :: nat in
     (48 \<le> n \<and> n \<le> 57) \<or> (65 \<le> n \<and> n \<le> 90) \<or> (97 \<le> n \<and> n \<le> 122) \<or> n = 95)"

definition trim :: "string \<Rightarrow> string" where
  "trim s = rev (dropWhile is_space (rev (dropWhile is_space s)))"

text \<open>\<open>s.split(d)\<close> for a one-character separator: the empty string gives one empty piece.\<close>

fun split :: "char \<Rightarrow> string \<Rightarrow> string list" where
  "split d [] = [] # []"
| "split d (x # xs) =
     (if x = d then [] # split d xs
      else (case split d xs of [] \<Rightarrow> [x] # [] | y # ys \<Rightarrow> (x # y) # ys))"

text \<open>
  \<open>escapeHtml\<close> assigns the string to \<open>textContent\<close> and reads \<open>innerHTML\<close> back: the
  serialisation of a text node escapes the ampersand, the two angle brackets and the
  no-break space, and nothing else.
\<close>

definition escapeHtml :: "string \<Rightarrow> string" where
  "escapeHtml str = concat (map (\<lambda>c.
      if c = CHR ''&'' then ''&amp;''
      else if c = CHR ''<'' then ''&lt;''
      else if c = CHR ''>'' then ''&gt;''
      else if c = CHR 0xA0 then ''&nbsp;''
      else [c]) str)"


section \<open>Regular expressions\<close>

text \<open>
  The renderer is a pipeline of \<open>String.prototype.replace\<close> calls with regular expressions.
  The expressions are kept as syntax trees that mirror the literals of the source, and one
  matcher gives them the backtracking semantics of JavaScript: \<open>ms r (p, s)\<close> lists the ways
  \<open>r\<close> matches a prefix of \<open>s\<close>, the preferred one first, where \<open>p\<close> is the character before
  the position (for \<open>^\<close>). A greedy star tries one more round before stopping, a lazy star
  the reverse; a round that consumes nothing is rejected, as the language prescribes.
\<close>

datatype cls = Chars string | Neg cls | Union cls cls | Space | Word | Digit | Dot

fun in_cls :: "cls \<Rightarrow> char \<Rightarrow> bool" where
  "in_cls (Chars cs) c = (c \<in> set cs)"
| "in_cls (Neg k) c = (\<not> in_cls k c)"
| "in_cls (Union k l) c = (in_cls k c \<or> in_cls l c)"
| "in_cls Space c = is_space c"
| "in_cls Word c = is_word c"
| "in_cls Digit c = is_digit c"
| "in_cls Dot c = (\<not> is_line_end c)"

datatype re = Ch char | In cls | Eps | Cat re re | Or re re | Star re | Lazy re
  | Cap nat re | Bol | Eol | Bos | Eos

type_synonym caps = "(nat \<times> string) list"
type_synonym pos = "char option \<times> string"

function ms :: "re \<Rightarrow> pos \<Rightarrow> (caps \<times> pos) list" where
  "ms (Ch c) (p, s) =
     (case s of [] \<Rightarrow> [] | x # xs \<Rightarrow> if x = c then [([], Some x, xs)] else [])"
| "ms (In k) (p, s) =
     (case s of [] \<Rightarrow> [] | x # xs \<Rightarrow> if in_cls k x then [([], Some x, xs)] else [])"
| "ms Eps (p, s) = [([], p, s)]"
| "ms (Cat a b) (p, s) =
     concat (map (\<lambda>(c1, q). map (\<lambda>(c2, q'). (c2 @ c1, q')) (ms b q)) (ms a (p, s)))"
| "ms (Or a b) (p, s) = ms a (p, s) @ ms b (p, s)"
| "ms (Star a) (p, s) =
     concat (map (\<lambda>(c1, p1, s1).
        if length s1 < length s
        then map (\<lambda>(c2, q'). (c2 @ c1, q')) (ms (Star a) (p1, s1)) else [])
        (ms a (p, s))) @ [([], p, s)]"
| "ms (Lazy a) (p, s) =
     ([], p, s) # concat (map (\<lambda>(c1, p1, s1).
        if length s1 < length s
        then map (\<lambda>(c2, q'). (c2 @ c1, q')) (ms (Lazy a) (p1, s1)) else [])
        (ms a (p, s)))"
| "ms (Cap n a) (p, s) =
     map (\<lambda>(c, p1, s1). ((n, take (length s - length s1) s) # c, p1, s1)) (ms a (p, s))"
| "ms Bol (p, s) =
     (case p of None \<Rightarrow> [([], p, s)] | Some x \<Rightarrow> if is_line_end x then [([], p, s)] else [])"
| "ms Eol (p, s) =
     (case s of [] \<Rightarrow> [([], p, s)] | x # xs \<Rightarrow> if is_line_end x then [([], p, s)] else [])"
| "ms Bos (p, s) = (case p of None \<Rightarrow> [([], p, s)] | Some x \<Rightarrow> [])"
| "ms Eos (p, s) = (case s of [] \<Rightarrow> [([], p, s)] | x # xs \<Rightarrow> [])"
  by pat_completeness auto
termination
  by (relation "measures [\<lambda>(r, p, s). size r, \<lambda>(r, p, s). length s]") auto

declare ms.simps [simp del]

text \<open>The text of group \<open>n\<close>; the empty string when the group took no part.\<close>

definition grp :: "caps \<Rightarrow> nat \<Rightarrow> string" where
  "grp c n = (case map_of c n of None \<Rightarrow> [] | Some v \<Rightarrow> v)"

definition matched :: "string \<Rightarrow> string \<Rightarrow> string" where
  "matched s s1 = take (length s - length s1) s"

text \<open>
  \<open>str.replace(r, f)\<close> with the flag \<open>g\<close>: the leftmost match at or after the position is
  replaced by what \<open>f\<close> makes of the matched text and the groups, and the search goes on
  behind the match (one character further after an empty match).
\<close>

function replace :: "re \<Rightarrow> (string \<Rightarrow> caps \<Rightarrow> string) \<Rightarrow> pos \<Rightarrow> string" where
  "replace r f (p, s) =
     (case ms r (p, s) of
        (c, p1, s1) # _ \<Rightarrow>
          if length s1 < length s then f (matched s s1) c @ replace r f (p1, s1)
          else (case s of [] \<Rightarrow> f [] c | x # xs \<Rightarrow> f [] c @ x # replace r f (Some x, xs))
      | [] \<Rightarrow> (case s of [] \<Rightarrow> [] | x # xs \<Rightarrow> x # replace r f (Some x, xs)))"
  by pat_completeness auto
termination
  by (relation "measure (\<lambda>(r, f, p, s). length s)") auto

declare replace.simps [simp del]

text \<open>\<open>r.test(s)\<close>: a match at some position.\<close>

fun test :: "re \<Rightarrow> pos \<Rightarrow> bool" where
  "test r (p, []) = (ms r (p, []) \<noteq> [])"
| "test r (p, x # xs) = (ms r (p, x # xs) \<noteq> [] \<or> test r (Some x, xs))"

fun Str :: "string \<Rightarrow> re" where
  "Str [] = Eps"
| "Str [c] = Ch c"
| "Str (c # cs) = Cat (Ch c) (Str cs)"

fun Seq :: "re list \<Rightarrow> re" where
  "Seq [] = Eps"
| "Seq [r] = r"
| "Seq (r # rs) = Cat r (Seq rs)"

definition Plus :: "re \<Rightarrow> re" where
  "Plus r = Cat r (Star r)"

definition LazyPlus :: "re \<Rightarrow> re" where
  "LazyPlus r = Cat r (Lazy r)"

definition Opt :: "re \<Rightarrow> re" where
  "Opt r = Or r Eps"


section \<open>The markdown renderer\<close>

text \<open>
  \<open>renderMarkdown\<close> of \<^verbatim>\<open>chat_widget.js\<close>. The table pass replaces a block of pipe rows
  through a function; all other passes use a template with \<open>$1\<close>, \<open>$2\<close>.
\<close>

text \<open>\<^verbatim>\<open>/^\|[\s-:|]+\|$/\<close>: no flag, so the anchors are those of the whole row.\<close>

definition separator_row :: re where
  "separator_row =
     Seq [Bos, Ch CHR ''|'', Plus (In (Union Space (Chars ''-:|''))), Ch CHR ''|'', Eos]"

definition table_row :: "nat \<times> string \<Rightarrow> string" where
  "table_row = (\<lambda>(i, row).
     if test separator_row (None, row) then []
     else (let cells = filter (\<lambda>c. trim c \<noteq> []) (split CHR ''|'' row);
               tag = (if i = 0 then ''th'' else ''td'')
           in ''<tr>''
              @ concat (map (\<lambda>cell. ''<'' @ tag @ ''>'' @ trim cell @ ''</'' @ tag @ ''>'') cells)
              @ ''</tr>''))"

definition table_block :: "string \<Rightarrow> caps \<Rightarrow> string" where
  "table_block table c =
     (let rows = filter (\<lambda>r. trim r \<noteq> []) (split nl (trim table))
      in if length rows < 2 then table
         else ''<table>'' @ concat (map table_row (enumerate 0 rows)) @ ''</table>'')"

text \<open>The block names of the two clean-up passes.\<close>

definition block_open :: re where
  "block_open = Or (Cat (Ch CHR ''h'') (In (Chars ''23''))) (Or (Str ''table'') (Or (Str ''ul'')
     (Or (Str ''ol'') (Or (Str ''pre'') (Or (Str ''blockquote'') (Str ''hr''))))))"

definition block_close :: re where
  "block_close = Or (Cat (Ch CHR ''h'') (In (Chars ''23''))) (Or (Str ''table'') (Or (Str ''ul'')
     (Or (Str ''ol'') (Or (Str ''pre'') (Str ''blockquote'')))))"

text \<open>
  The passes in the order of the source. The unordered-list pattern is a class of the hyphen and the bullet
  U+2022; only the hyphen is a code unit of the modelled range.
\<close>

definition passes :: "(re \<times> (string \<Rightarrow> caps \<Rightarrow> string)) list" where
  "passes = [
    (Seq [Str [bq, bq, bq], Cap 1 (Star (In Word)), Ch nl,
          Cap 2 (Lazy (In (Union Space (Neg Space)))), Str [bq, bq, bq]],
       \<lambda>m c. ''<pre><code>'' @ grp c 2 @ ''</code></pre>''),
    (Seq [Ch bq, Cap 1 (Plus (In (Neg (Chars [bq])))), Ch bq],
       \<lambda>m c. ''<code>'' @ grp c 1 @ ''</code>''),
    (Cap 1 (Plus (Seq [Ch CHR ''|'', Plus (In (Neg (Chars [nl]))), Ch CHR ''|'', Opt (Ch nl)])),
       table_block),
    (Seq [Bol, Str ''### '', Cap 1 (Plus (In Dot)), Eol],
       \<lambda>m c. ''<h3>'' @ grp c 1 @ ''</h3>''),
    (Seq [Bol, Str ''## '', Cap 1 (Plus (In Dot)), Eol],
       \<lambda>m c. ''<h2>'' @ grp c 1 @ ''</h2>''),
    (Seq [Str ''**'', Cap 1 (LazyPlus (In Dot)), Str ''**''],
       \<lambda>m c. ''<strong>'' @ grp c 1 @ ''</strong>''),
    (Seq [Ch CHR ''*'', Cap 1 (LazyPlus (In Dot)), Ch CHR ''*''],
       \<lambda>m c. ''<em>'' @ grp c 1 @ ''</em>''),
    (Seq [Bol, In (Chars ''-''), Ch CHR '' '', Cap 1 (Plus (In Dot)), Eol],
       \<lambda>m c. ''<li>'' @ grp c 1 @ ''</li>''),
    (Cap 1 (Plus (Seq [Str ''<li>'', Star (In Dot), Str ''</li>'', Opt (Ch nl)])),
       \<lambda>m c. ''<ul>'' @ grp c 1 @ ''</ul>''),
    (Seq [Bol, Plus (In Digit), Str ''. '', Cap 1 (Plus (In Dot)), Eol],
       \<lambda>m c. ''<li>'' @ grp c 1 @ ''</li>''),
    (Seq [Bol, Str ''> '', Cap 1 (Plus (In Dot)), Eol],
       \<lambda>m c. ''<blockquote>'' @ grp c 1 @ ''</blockquote>''),
    (Seq [Bol, Str ''--'', Plus (Ch CHR ''-''), Eol],
       \<lambda>m c. ''<hr>''),
    (Seq [Ch CHR ''['', Cap 1 (Plus (In (Neg (Chars '']'')))), Str ''](''  ,
          Cap 2 (Plus (In (Neg (Chars '')'')))), Ch CHR '')''],
       \<lambda>m c. ''<a href='' @ [dq] @ grp c 2 @ [dq] @ '' target='' @ [dq] @ ''_blank'' @ [dq]
              @ '' rel='' @ [dq] @ ''noopener'' @ [dq] @ ''>'' @ grp c 1 @ ''</a>''),
    (Str [nl, nl], \<lambda>m c. ''</p><p>''),
    (Ch nl, \<lambda>m c. ''<br>''),
    (Seq [Str ''<p><'', Cap 1 block_open], \<lambda>m c. ''<'' @ grp c 1),
    (Seq [Str ''</'', Cap 1 block_close, Str ''></p>''], \<lambda>m c. ''</'' @ grp c 1 @ ''>'')]"

text \<open>
  The argument is \<open>None\<close> for \<open>undefined\<close> or \<open>null\<close>; \<open>!text\<close> holds for these and for
  the empty string.
\<close>

definition truthy :: "string option \<Rightarrow> bool" where
  "truthy v = (case v of None \<Rightarrow> False | Some s \<Rightarrow> s \<noteq> [])"

definition renderMarkdown :: "string option \<Rightarrow> string" where
  "renderMarkdown text =
     (case text of None \<Rightarrow> []
      | Some t \<Rightarrow> if t = [] then []
          else foldl (\<lambda>html (r, f). replace r f (None, html)) (escapeHtml t) passes)"


section \<open>The widget state\<close>

text \<open>
  Fields of the backend's replies that may be absent are options; \<^const>\<open>truthy\<close> is the
  test the source applies to them. A reply as a whole is \<open>None\<close> when \<open>!r || !r.message\<close>.
\<close>

datatype role = User | Assistant

record message =
  role :: role
  content :: "string option"

text \<open>The \<open>message\<close> of a \<open>chat_start\<close> reply.\<close>

record start_reply =
  needs_clarification :: bool
  budget_exceeded :: bool
  error :: "string option"
  stream_id :: "string option"
  session_id :: "string option"
  clarification_question :: "string option"
  clarification_options :: "string list option"

text \<open>
  The \<open>message\<close> of a \<open>stream_poll\<close> reply (fields \<open>tool_status\<close>, \<open>delta\<close>, \<open>text\<close>,
  \<open>text_length\<close>, \<open>done\<close>, \<open>error\<close>, \<open>session_title\<close>); \<open>text_length\<close> is a length.
\<close>

record poll_reply =
  p_tool_status :: "string option"
  p_delta :: bool
  p_text :: "string option"
  p_text_length :: "nat option"
  p_done :: bool
  p_error :: "string option"
  p_session_title :: "string option"

record suggestion =
  label :: string
  query :: "string option"

text \<open>Every \<open>frappe.call\<close> the widget issues is logged with its arguments.\<close>

datatype call =
    ChatStart string "string option"
  | StreamPoll "string option" "nat option"
  | GetSuggestions "string option" "string option" string
  | GetSession "string option"
  | CloseSession "string option"

text \<open>A request whose callback has not run yet; \<open>PPoll c\<close> belongs to the poll closure \<open>c\<close>.\<close>

datatype pending = PStart | PPoll nat | PSuggest | PSession

text \<open>The two local variables of one \<open>startPolling\<close> call.\<close>

record poller =
  lastLength :: "nat option"
  assistantBubble :: "nat option"

text \<open>
  A message element made by \<open>addMessage\<close>: the markup of its bubble and the raw text of
  its action bar, if it has one. A bubble reference is the index of the element in
  \<open>bubbles\<close>; \<open>shown\<close> lists the children of the message pane.
\<close>

record bubble =
  msg_role :: role
  inner_html :: string
  actions :: "string option"

datatype typing = Thinking | ToolStatus string

record widget =
  sessionId :: "string option"
  messages :: "message list"
  isStreaming :: bool
  streamId :: "string option"
  pollTimer :: "nat option"
  input_value :: string
  sendBtn_disabled :: bool
  typingIndicator :: "typing option"
  suggestions :: "(string \<times> string) list"
  errorBanner :: "string list"
  bubbles :: "bubble list"
  shown :: "nat list"
  welcome_el :: bool
  doctype :: "string option"
  pollers :: "poller list"
  calls :: "call list"
  pending :: "pending list"
  timers :: "(nat \<times> nat) list"
  next_timer :: nat

text \<open>
  \<open>errorBanner\<close> holds every text \<open>showError\<close> has displayed, the latest last (the banner
  shows that one until its own timer hides it). \<open>suggestions\<close> are the chips: the label and
  the text a click puts into the input. \<open>doctype\<close> is what \<open>detectContext\<close> reads from the
  page route. \<open>timers\<close> are the armed \<open>setTimeout(poll, 300)\<close> handles with their closure.
\<close>

definition state0 :: widget where
  "state0 = \<lparr> sessionId = None, messages = [], isStreaming = False, streamId = None,
     pollTimer = None, input_value = [], sendBtn_disabled = False, typingIndicator = None,
     suggestions = [], errorBanner = [], bubbles = [], shown = [], welcome_el = True,
     doctype = None, pollers = [], calls = [], pending = [], timers = [], next_timer = 1 \<rparr>"

definition frappe_call :: "call \<Rightarrow> pending option \<Rightarrow> widget \<Rightarrow> widget" where
  "frappe_call c cb s =
     s\<lparr> calls := calls s @ [c],
        pending := (case cb of None \<Rightarrow> pending s | Some p \<Rightarrow> pending s @ [p]) \<rparr>"

definition addMessage :: "role \<Rightarrow> string option \<Rightarrow> widget \<Rightarrow> nat \<times> widget" where
  "addMessage r c s =
     (let b = \<lparr> msg_role = r,
                inner_html = (if r = Assistant then renderMarkdown c
                              else escapeHtml (case c of None \<Rightarrow> [] | Some t \<Rightarrow> t)),
                actions = (if r = Assistant \<and> truthy c then c else None) \<rparr>
      in (length (bubbles s),
          s\<lparr> welcome_el := False,
             bubbles := bubbles s @ [b],
             shown := shown s @ [length (bubbles s)],
             messages := messages s @ [\<lparr> role = r, content = c \<rparr>] \<rparr>))"

definition removeTyping :: "widget \<Rightarrow> widget" where
  "removeTyping s = s\<lparr> typingIndicator := None \<rparr>"

definition showTyping :: "string option \<Rightarrow> widget \<Rightarrow> widget" where
  "showTyping statusText s =
     (removeTyping s)\<lparr> typingIndicator :=
        Some (if truthy statusText then ToolStatus (escapeHtml (the statusText)) else Thinking) \<rparr>"

definition showError :: "string \<Rightarrow> widget \<Rightarrow> widget" where
  "showError msg s = s\<lparr> errorBanner := errorBanner s @ [msg] \<rparr>"

definition to_lower :: "char \<Rightarrow> char" where
  "to_lower c = (let n = of_char c :: nat in if 65 \<le> n \<and> n \<le> 90 then char_of (n + 32) else c)"

definition screen_context_of :: "string option \<Rightarrow> string" where
  "screen_context_of d =
     (if truthy d then replace (Plus (In Space)) (\<lambda>m c. ''_'') (None, map to_lower (the d))
      else ''dashboard'')"

definition screenContext :: "widget \<Rightarrow> string" where
  "screenContext s = screen_context_of (doctype s)"

definition loadSuggestions :: "string option \<Rightarrow> string option \<Rightarrow> widget \<Rightarrow> widget" where
  "loadSuggestions lastQuery lastResponse s =
     frappe_call
       (GetSuggestions (if truthy lastQuery then lastQuery else None)
          (if truthy lastResponse then Some (take 300 (the lastResponse)) else None)
          (screenContext s))
       (Some PSuggest) s"

definition renderSuggestions :: "suggestion list \<Rightarrow> widget \<Rightarrow> widget" where
  "renderSuggestions sugg s =
     s\<lparr> suggestions :=
          map (\<lambda>x. (label x, if truthy (query x) then the (query x) else label x)) (take 4 sugg) \<rparr>"

definition showClarificationChips :: "string list \<Rightarrow> widget \<Rightarrow> widget" where
  "showClarificationChips options s = s\<lparr> suggestions := map (\<lambda>opt. (opt, opt)) options \<rparr>"

definition clearTimeout :: "nat \<Rightarrow> widget \<Rightarrow> widget" where
  "clearTimeout h s = s\<lparr> timers := filter (\<lambda>(h', c). h' \<noteq> h) (timers s) \<rparr>"

definition finishStreaming :: "string option \<Rightarrow> widget \<Rightarrow> widget" where
  "finishStreaming errorMsg s =
     (let s1 = (removeTyping s)\<lparr> isStreaming := False, streamId := None,
                                  sendBtn_disabled := False \<rparr>;
          s2 = (case pollTimer s1 of None \<Rightarrow> s1
                | Some h \<Rightarrow> (clearTimeout h s1)\<lparr> pollTimer := None \<rparr>);
          s3 = (if truthy errorMsg then showError (the errorMsg) s2 else s2)
      in loadSuggestions None None s3)"

text \<open>
  \<open>poll\<close> of the closure \<open>c\<close>: the guard on the stream handle, then the request with the
  closure's watermark.
\<close>

definition poll :: "nat \<Rightarrow> widget \<Rightarrow> widget" where
  "poll c s =
     (if \<not> truthy (streamId s) then s
      else frappe_call (StreamPoll (streamId s) (lastLength (pollers s ! c))) (Some (PPoll c)) s)"

definition startPolling :: "widget \<Rightarrow> widget" where
  "startPolling s =
     poll (length (pollers s))
       (s\<lparr> pollers := pollers s @ [\<lparr> lastLength = Some 0, assistantBubble = None \<rparr>] \<rparr>)"

definition setTimeout_poll :: "nat \<Rightarrow> widget \<Rightarrow> widget" where
  "setTimeout_poll c s =
     s\<lparr> timers := timers s @ [(next_timer s, c)],
        pollTimer := Some (next_timer s),
        next_timer := Suc (next_timer s) \<rparr>"

definition sendMessage :: "widget \<Rightarrow> widget" where
  "sendMessage s =
     (let text = trim (input_value s)
      in if text = [] \<or> isStreaming s then s
         else (let s1 = snd (addMessage User (Some text) s);
                   s2 = s1\<lparr> input_value := [], sendBtn_disabled := True \<rparr>;
                   s3 = showTyping None s2;
                   s4 = s3\<lparr> suggestions := [] \<rparr>;
                   s5 = s4\<lparr> isStreaming := True \<rparr>
               in frappe_call
                    (ChatStart text (if truthy (sessionId s5) then sessionId s5 else None))
                    (Some PStart) s5))"

text \<open>The \<open>callback\<close> and the \<open>error\<close> handler of the \<open>chat_start\<close> call.\<close>

definition chat_start_callback :: "start_reply option \<Rightarrow> widget \<Rightarrow> widget" where
  "chat_start_callback r s =
     (case r of
        None \<Rightarrow> finishStreaming (Some ''Something went wrong. Please try again.'') s
      | Some data \<Rightarrow>
          if needs_clarification data then
            (let s1 = (removeTyping s)\<lparr> isStreaming := False, sendBtn_disabled := False,
                                         sessionId := session_id data \<rparr>;
                 s2 = snd (addMessage Assistant (clarification_question data) s1)
             in (case clarification_options data of None \<Rightarrow> s2
                 | Some opts \<Rightarrow> showClarificationChips opts s2))
          else if budget_exceeded data then
            finishStreaming
              (if truthy (error data) then error data else Some ''Monthly budget exceeded.'') s
          else if truthy (error data) then finishStreaming (error data) s
          else startPolling (s\<lparr> streamId := stream_id data, sessionId := session_id data \<rparr>))"

definition chat_start_error :: "string option \<Rightarrow> widget \<Rightarrow> widget" where
  "chat_start_error err s =
     finishStreaming
       (if truthy err then err else Some ''Failed to connect to AI. Please try again.'') s"

text \<open>The last element of \<open>state.messages.filter(m => m.role === r)\<close>, if any.\<close>

definition last_of :: "role \<Rightarrow> message list \<Rightarrow> message option" where
  "last_of r msgs =
     (case filter (\<lambda>m. role m = r) msgs of [] \<Rightarrow> None | x # xs \<Rightarrow> Some (last (x # xs)))"

definition content_of :: "message option \<Rightarrow> string option" where
  "content_of m = (case m of None \<Rightarrow> None | Some x \<Rightarrow> content x)"

text \<open>The three parts of the \<open>stream_poll\<close> callback of closure \<open>c\<close>, in the source's order.\<close>

definition poll_tool_status :: "poll_reply \<Rightarrow> widget \<Rightarrow> widget" where
  "poll_tool_status data s =
     (if truthy (p_tool_status data) \<and> \<not> p_done data then showTyping (p_tool_status data) s
      else s)"

definition poll_delta :: "nat \<Rightarrow> poll_reply \<Rightarrow> widget \<Rightarrow> widget" where
  "poll_delta c data s =
     (if p_delta data then
        (let s1 = removeTyping s;
             (b, s2) = (case assistantBubble (pollers s1 ! c) of
                          None \<Rightarrow> addMessage Assistant (Some []) s1
                        | Some b \<Rightarrow> (b, s1));
             s3 = s2\<lparr> bubbles := (bubbles s2)
                        [b := (bubbles s2 ! b)\<lparr> inner_html := renderMarkdown (p_text data) \<rparr>] \<rparr>
         in s3\<lparr> pollers := (pollers s3)
                   [c := \<lparr> lastLength = p_text_length data, assistantBubble = Some b \<rparr>] \<rparr>)
      else s)"

definition poll_done :: "nat \<Rightarrow> poll_reply \<Rightarrow> widget \<Rightarrow> widget" where
  "poll_done c data s =
     (let s1 = removeTyping s;
          ab = assistantBubble (pollers s1 ! c);
          s2 = (if truthy (p_error data) then
                  (if ab = None then snd (addMessage Assistant (p_error data) s1) else s1)
                else if ab = None \<and> truthy (p_text data) then
                  snd (addMessage Assistant (p_text data) s1)
                else if ab \<noteq> None \<and> truthy (p_text data) then
                  (if actions (bubbles s1 ! the ab) = None
                   then s1\<lparr> bubbles := (bubbles s1)
                              [the ab := (bubbles s1 ! the ab)\<lparr> actions := p_text data \<rparr>] \<rparr>
                   else s1)
                else s1);
          s3 = s2\<lparr> isStreaming := False, streamId := None, sendBtn_disabled := False \<rparr>
      in loadSuggestions (content_of (last_of User (messages s3)))
           (content_of (last_of Assistant (messages s3))) s3)"

definition poll_callback :: "nat \<Rightarrow> poll_reply option \<Rightarrow> widget \<Rightarrow> widget" where
  "poll_callback c r s =
     (case r of
        None \<Rightarrow> finishStreaming (Some ''Stream connection lost.'') s
      | Some data \<Rightarrow>
          (let s1 = poll_delta c data (poll_tool_status data s)
           in if p_done data then poll_done c data s1 else setTimeout_poll c s1))"

definition poll_error :: "widget \<Rightarrow> widget" where
  "poll_error s = finishStreaming (Some ''Connection error. Please try again.'') s"

definition loadSession :: "string option \<Rightarrow> widget \<Rightarrow> widget" where
  "loadSession sid s = frappe_call (GetSession sid) (Some PSession) s"

definition get_session_callback :: "message list option \<Rightarrow> widget \<Rightarrow> widget" where
  "get_session_callback r s =
     (case r of None \<Rightarrow> s
      | Some msgs \<Rightarrow>
          foldl (\<lambda>s' m. snd (addMessage (role m) (content m) s'))
            (s\<lparr> shown := [], welcome_el := False \<rparr>) msgs)"

definition get_suggestions_callback :: "suggestion list option \<Rightarrow> widget \<Rightarrow> widget" where
  "get_suggestions_callback r s = (case r of None \<Rightarrow> s | Some sugg \<Rightarrow> renderSuggestions sugg s)"

definition startNewChat :: "widget \<Rightarrow> widget" where
  "startNewChat s =
     (let s1 = (if truthy (sessionId s) then frappe_call (CloseSession (sessionId s)) None s
                else s);
          s2 = s1\<lparr> sessionId := None, messages := [], shown := [], welcome_el := True \<rparr>
      in loadSuggestions None None s2)"


section \<open>The event loop\<close>

text \<open>
  The widget is single-threaded: between two events nothing runs. An event is a user
  action, the arrival of a reply to a request in flight, or the firing of an armed timer;
  \<open>step\<close> is \<open>None\<close> when the event cannot happen in the state (no such request or timer).
\<close>

datatype event =
    Type string
  | Send
  | ClickChip nat
  | NewChat
  | LoadSession "string option"
  | StartReply "start_reply option"
  | StartFailed "string option"
  | PollReply nat "poll_reply option"
  | PollFailed nat
  | TimerFires nat
  | SessionReply "message list option"
  | SuggestionsReply "suggestion list option"

definition answered :: "pending \<Rightarrow> widget \<Rightarrow> widget" where
  "answered p s = s\<lparr> pending := remove1 p (pending s) \<rparr>"

text \<open>A timer that fires is no longer armed.\<close>

definition fired :: "nat \<Rightarrow> widget \<Rightarrow> widget" where
  "fired h s = s\<lparr> timers := filter (\<lambda>(h', c). h' \<noteq> h) (timers s) \<rparr>"

fun step :: "event \<Rightarrow> widget \<Rightarrow> widget option" where
  "step (Type t) s = Some (s\<lparr> input_value := t \<rparr>)"
| "step Send s = Some (sendMessage s)"
| "step (ClickChip i) s =
     (if i < length (suggestions s)
      then Some (sendMessage (s\<lparr> input_value := snd (suggestions s ! i) \<rparr>)) else None)"
| "step NewChat s = Some (startNewChat s)"
| "step (LoadSession sid) s = Some (loadSession sid s)"
| "step (StartReply r) s =
     (if PStart \<in> set (pending s) then Some (chat_start_callback r (answered PStart s)) else None)"
| "step (StartFailed err) s =
     (if PStart \<in> set (pending s) then Some (chat_start_error err (answered PStart s)) else None)"
| "step (PollReply c r) s =
     (if PPoll c \<in> set (pending s) then Some (poll_callback c r (answered (PPoll c) s)) else None)"
| "step (PollFailed c) s =
     (if PPoll c \<in> set (pending s) then Some (poll_error (answered (PPoll c) s)) else None)"
| "step (TimerFires h) s =
     (case map_of (timers s) h of None \<Rightarrow> None
      | Some c \<Rightarrow> Some (poll c (fired h s)))"
| "step (SessionReply r) s =
     (if PSession \<in> set (pending s) then Some (get_session_callback r (answered PSession s))
      else None)"
| "step (SuggestionsReply r) s =
     (if PSuggest \<in> set (pending s) then Some (get_suggestions_callback r (answered PSuggest s))
      else None)"

fun run :: "event list \<Rightarrow> widget \<Rightarrow> widget option" where
  "run [] s = Some s"
| "run (e # es) s = (case step e s of None \<Rightarrow> None | Some s' \<Rightarrow> run es s')"


section \<open>What the specification says, as definitions\<close>

text \<open>
  The three terminal actions of a turn's start, and the classification of the reply in
  the words of the specification: a missing or malformed reply first, then
  \<open>needs_clarification\<close>, then \<open>budget_exceeded\<close>, then \<open>error\<close>, otherwise the stream.
\<close>

datatype outcome = ClarificationShown | ErrorSurfaced | StreamingStarted

definition classify :: "start_reply option \<Rightarrow> outcome" where
  "classify r =
     (case r of None \<Rightarrow> ErrorSurfaced
      | Some d \<Rightarrow>
          if needs_clarification d then ClarificationShown
          else if budget_exceeded d then ErrorSurfaced
          else if truthy (error d) then ErrorSurfaced
          else StreamingStarted)"

text \<open>
  The terminal actions taken between two states, read off the state: one
  \<open>ClarificationShown\<close> for each message appended, one \<open>ErrorSurfaced\<close> for each text
  \<open>showError\<close> displayed, one \<open>StreamingStarted\<close> for each \<open>stream_poll\<close> request sent.
\<close>

fun is_poll :: "call \<Rightarrow> bool" where
  "is_poll (StreamPoll sid n) = True"
| "is_poll c = False"

definition terminal_actions :: "widget \<Rightarrow> widget \<Rightarrow> outcome list" where
  "terminal_actions s s' =
     replicate (length (messages s') - length (messages s)) ClarificationShown
     @ replicate (length (errorBanner s') - length (errorBanner s)) ErrorSurfaced
     @ replicate (length (filter is_poll (calls s')) - length (filter is_poll (calls s)))
         StreamingStarted"

text \<open>
  What every turn-terminal error owes: the streaming flag cleared, the stream handle
  null, the send button enabled, and a suggestion refresh issued.
\<close>

definition released :: "widget \<Rightarrow> widget \<Rightarrow> bool" where
  "released s s' =
     (\<not> isStreaming s' \<and> streamId s' = None \<and> \<not> sendBtn_disabled s'
      \<and> calls s' = calls s @ [GetSuggestions None None (screenContext s)])"

text \<open>Sample inputs: a widget with \<open>hi\<close> typed, and replies of the backend.\<close>

definition typed_hi :: widget where
  "typed_hi = state0\<lparr> input_value := ''hi'' \<rparr>"

definition reply_blank :: start_reply where
  "reply_blank = \<lparr> needs_clarification = False, budget_exceeded = False, error = None,
     stream_id = None, session_id = None, clarification_question = None,
     clarification_options = None \<rparr>"

definition reply_stream :: start_reply where
  "reply_stream = reply_blank\<lparr> stream_id := Some ''s1'', session_id := Some ''sess1'' \<rparr>"

definition reply_clarify :: start_reply where
  "reply_clarify = reply_blank\<lparr> needs_clarification := True,
     clarification_question := Some ''Which month?'',
     clarification_options := Some [''January'', ''February''] \<rparr>"

definition reply_budget :: start_reply where
  "reply_budget = reply_blank\<lparr> budget_exceeded := True \<rparr>"

definition reply_error :: start_reply where
  "reply_error = reply_blank\<lparr> error := Some ''No access'' \<rparr>"


text \<open>
  Requests and timers that belong to a turn: a \<open>chat_start\<close> or \<open>stream_poll\<close> request
  in flight weighs one, as does an armed poll timer. The invariant of the turn engine
  says that at most one of them exists at a time, that one exists only while the
  streaming flag is set, and that no stream handle is held while the \<open>chat_start\<close> reply
  is awaited.
\<close>

fun weight :: "pending \<Rightarrow> nat" where
  "weight PStart = 1"
| "weight (PPoll c) = 1"
| "weight PSuggest = 0"
| "weight PSession = 0"

definition in_flight :: "widget \<Rightarrow> nat" where
  "in_flight s = sum_list (map weight (pending s)) + length (timers s)"

definition turn_inv :: "widget \<Rightarrow> bool" where
  "turn_inv s =
     ((streamId s \<noteq> None \<longrightarrow> isStreaming s)
      \<and> in_flight s \<le> 1
      \<and> (in_flight s = 1 \<longrightarrow> isStreaming s)
      \<and> (PStart \<in> set (pending s) \<longrightarrow> streamId s = None))"

definition core :: "widget \<Rightarrow> bool \<times> string option \<times> pending list \<times> (nat \<times> nat) list" where
  "core s = (isStreaming s, streamId s, pending s, timers s)"


text \<open>A sample run: \<open>hi\<close> is typed and sent, and the backend opens a stream.\<close>

definition run_to_stream :: "event list" where
  "run_to_stream = [Type ''hi'', Send, StartReply (Some reply_stream)]"


text \<open>Sample poll replies and sample runs.\<close>

definition poll_blank :: poll_reply where
  "poll_blank = \<lparr> p_tool_status = None, p_delta = False, p_text = None, p_text_length = None,
     p_done = False, p_error = None, p_session_title = None \<rparr>"

definition poll_hello :: poll_reply where
  "poll_hello = poll_blank\<lparr> p_delta := True, p_text := Some ''Hello'', p_text_length := Some 5 \<rparr>"

definition poll_tool :: poll_reply where
  "poll_tool = poll_blank\<lparr> p_tool_status := Some ''Running query'' \<rparr>"

definition poll_finished :: poll_reply where
  "poll_finished = poll_blank\<lparr> p_done := True, p_text := Some ''Hello'' \<rparr>"

definition poll_failed :: poll_reply where
  "poll_failed = poll_blank\<lparr> p_done := True, p_error := Some ''Model unavailable'' \<rparr>"

definition run_streamed :: "event list" where
  "run_streamed = run_to_stream @ [PollReply 0 (Some poll_hello), TimerFires 1,
     PollReply 0 (Some poll_finished)]"

definition run_new_chat :: "event list" where
  "run_new_chat = run_to_stream @ [PollReply 0 (Some poll_tool), NewChat, TimerFires 1,
     PollReply 0 (Some poll_hello)]"


text \<open>
  The watermark of the poll closure \<open>c\<close> along a run: the value of its \<open>lastLength\<close> in
  every state the run passes through in which the closure exists; each poll request of
  the closure sends the value of that moment as \<open>last_length\<close>. And the lengths the
  backend reports to the closure: the \<open>text_length\<close> of each of its poll replies whose
  \<open>delta\<close> is truthy.
\<close>

fun watermarks :: "nat \<Rightarrow> event list \<Rightarrow> widget \<Rightarrow> nat option list" where
  "watermarks c [] s = (if c < length (pollers s) then [lastLength (pollers s ! c)] else [])"
| "watermarks c (e # es) s =
     (if c < length (pollers s) then [lastLength (pollers s ! c)] else [])
     @ (case step e s of None \<Rightarrow> [] | Some s' \<Rightarrow> watermarks c es s')"

fun reported :: "nat \<Rightarrow> event list \<Rightarrow> nat option list" where
  "reported c [] = []"
| "reported c (PollReply c' (Some d) # es) =
     (if c' = c \<and> p_delta d then p_text_length d # reported c es else reported c es)"
| "reported c (e # es) = reported c es"












section \<open>Properties\<close>

subsection \<open>What each procedure does to the fields\<close>

lemma truthy_simps [simp]:
  "truthy None = False" "truthy (Some []) = False" "truthy (Some (x # xs)) = True"
  by (simp_all add: truthy_def)

lemmas basic_defs = frappe_call_def removeTyping_def showTyping_def showError_def
  clearTimeout_def loadSuggestions_def screenContext_def addMessage_def
  showClarificationChips_def

lemma finishStreaming_fields:
  "isStreaming (finishStreaming e s) = False"
  "streamId (finishStreaming e s) = None"
  "sendBtn_disabled (finishStreaming e s) = False"
  "calls (finishStreaming e s) = calls s @ [GetSuggestions None None (screenContext s)]"
  "pending (finishStreaming e s) = pending s @ [PSuggest]"
  "messages (finishStreaming e s) = messages s"
  "pollers (finishStreaming e s) = pollers s"
  "bubbles (finishStreaming e s) = bubbles s"
  "sessionId (finishStreaming e s) = sessionId s"
  "doctype (finishStreaming e s) = doctype s"
  "errorBanner (finishStreaming e s) = (if truthy e then errorBanner s @ [the e] else errorBanner s)"
  by (simp_all add: finishStreaming_def basic_defs truthy_def Let_def split: option.splits)

lemma answered_fields:
  "isStreaming (answered p s) = isStreaming s"
  "streamId (answered p s) = streamId s"
  "sessionId (answered p s) = sessionId s"
  "calls (answered p s) = calls s"
  "messages (answered p s) = messages s"
  "pollers (answered p s) = pollers s"
  "errorBanner (answered p s) = errorBanner s"
  "doctype (answered p s) = doctype s"
  "bubbles (answered p s) = bubbles s"
  "timers (answered p s) = timers s"
  "pending (answered p s) = remove1 p (pending s)"
  by (simp_all add: answered_def)

lemma released_finishStreaming: "released s (finishStreaming e s)"
  by (simp add: released_def finishStreaming_fields)

lemma sendMessage_skip:
  "trim (input_value s) = [] \<or> isStreaming s \<Longrightarrow> sendMessage s = s"
  by (auto simp: sendMessage_def Let_def)

lemma sendMessage_accepted:
  assumes "trim (input_value s) \<noteq> []" "\<not> isStreaming s"
  shows "pending (sendMessage s) = pending s @ [PStart]"
    and "calls (sendMessage s) = calls s @ [ChatStart (trim (input_value s))
            (if truthy (sessionId s) then sessionId s else None)]"
    and "messages (sendMessage s)
           = messages s @ [\<lparr> role = User, content = Some (trim (input_value s)) \<rparr>]"
    and "isStreaming (sendMessage s)"
    and "streamId (sendMessage s) = streamId s"
    and "pollers (sendMessage s) = pollers s"
    and "timers (sendMessage s) = timers s"
    and "errorBanner (sendMessage s) = errorBanner s"
  using assms by (simp_all add: sendMessage_def basic_defs Let_def)

lemma poll_fields:
  "messages (poll c s) = messages s"
  "errorBanner (poll c s) = errorBanner s"
  "pollers (poll c s) = pollers s"
  "bubbles (poll c s) = bubbles s"
  "streamId (poll c s) = streamId s"
  "sessionId (poll c s) = sessionId s"
  "isStreaming (poll c s) = isStreaming s"
  "timers (poll c s) = timers s"
  "calls (poll c s) = (if truthy (streamId s)
      then calls s @ [StreamPoll (streamId s) (lastLength (pollers s ! c))] else calls s)"
  "pending (poll c s) = (if truthy (streamId s) then pending s @ [PPoll c] else pending s)"
  by (simp_all add: poll_def basic_defs)

lemma startPolling_fields:
  "messages (startPolling s) = messages s"
  "errorBanner (startPolling s) = errorBanner s"
  "pollers (startPolling s) = pollers s @ [\<lparr> lastLength = Some 0, assistantBubble = None \<rparr>]"
  "bubbles (startPolling s) = bubbles s"
  "streamId (startPolling s) = streamId s"
  "sessionId (startPolling s) = sessionId s"
  "isStreaming (startPolling s) = isStreaming s"
  "timers (startPolling s) = timers s"
  "calls (startPolling s) = (if truthy (streamId s)
      then calls s @ [StreamPoll (streamId s) (Some 0)] else calls s)"
  "pending (startPolling s) = (if truthy (streamId s)
      then pending s @ [PPoll (length (pollers s))] else pending s)"
  by (simp_all add: startPolling_def poll_fields)

lemma chat_start_callback_actions:
  "terminal_actions s (chat_start_callback r s)
     = (if classify r = StreamingStarted \<and> \<not> truthy (stream_id (the r)) then []
        else [classify r])"
  by (cases r)
     (simp_all add: chat_start_callback_def classify_def terminal_actions_def
        finishStreaming_fields startPolling_fields basic_defs Let_def
        split: option.splits)

lemma chat_start_error_actions:
  "terminal_actions s (chat_start_error err s) = [ErrorSurfaced]"
  by (simp add: terminal_actions_def chat_start_error_def finishStreaming_fields truthy_def)


subsection \<open>The start of a turn\<close>

text \<open>
  C1. After an accepted send the reply to \<open>chat_start\<close> is classified in the order
  missing or malformed, clarification, budget, error, stream, and each branch but the
  last takes its one action. The stream branch adopts \<open>stream_id\<close> and \<open>session_id\<close>
  without looking at them and calls \<open>startPolling\<close>, whose first \<open>poll\<close> returns at its
  guard when the handle is not usable. For the reply \<open>{message: {}}\<close> no question is
  shown, no error is surfaced and no poll is sent: no terminal action at all. The
  request is answered, no timer is armed, the streaming flag stays set, the send button
  stays disabled and the typing indicator stays up, so a further send is rejected.
\<close>

theorem reply_without_stream_id_stalls:
  "map_option (\<lambda>s. (terminal_actions (sendMessage typed_hi) s, messages s, errorBanner s,
        calls s, pending s, timers s, isStreaming s, streamId s, sendBtn_disabled s,
        typingIndicator s))
     (run [Type ''hi'', Send, StartReply (Some reply_blank)] state0)
   = Some ([], [\<lparr> role = User, content = Some ''hi'' \<rparr>], [], [ChatStart ''hi'' None], [], [],
       True, None, True, Some Thinking)
   \<and> map_option (\<lambda>s. (calls s, messages s))
       (run [Type ''hi'', Send, StartReply (Some reply_blank), Type ''again'', Send] state0)
     = Some ([ChatStart ''hi'' None], [\<lparr> role = User, content = Some ''hi'' \<rparr>])"
  by code_simp

text \<open>
  Every other reply, and a transport failure, is followed by exactly one terminal action:
  the one its classification names.
\<close>

lemma accepted_send_actions:
  assumes "trim (input_value s) \<noteq> []" and "\<not> isStreaming s"
  shows "PStart \<in> set (pending (sendMessage s))"
    and "terminal_actions (sendMessage s)
           (chat_start_callback r (answered PStart (sendMessage s)))
         = (if classify r = StreamingStarted \<and> \<not> truthy (stream_id (the r)) then []
            else [classify r])"
    and "terminal_actions (sendMessage s)
           (chat_start_error err (answered PStart (sendMessage s))) = [ErrorSurfaced]"
proof -
  let ?s1 = "sendMessage s"
  have ta: "terminal_actions ?s1 s' = terminal_actions (answered PStart ?s1) s'" for s'
    by (simp add: terminal_actions_def answered_fields)
  show "PStart \<in> set (pending ?s1)"
    using assms by (simp add: sendMessage_accepted)
  show "terminal_actions ?s1 (chat_start_callback r (answered PStart ?s1))
         = (if classify r = StreamingStarted \<and> \<not> truthy (stream_id (the r)) then []
            else [classify r])"
    by (simp only: ta chat_start_callback_actions)
  show "terminal_actions ?s1 (chat_start_error err (answered PStart ?s1)) = [ErrorSurfaced]"
    by (simp only: ta chat_start_error_actions)
qed

text \<open>
  C2. A send whose input trims to the empty string, or that comes while a turn is in
  flight, changes nothing: the state after it is the state before it, so no message is
  appended and no request is issued.
\<close>

theorem sendMessage_rejected:
  "trim (input_value s) = [] \<or> isStreaming s \<Longrightarrow> sendMessage s = s"
  by (auto simp: sendMessage_def Let_def)

theorem sendMessage_rejected_witness:
  "isStreaming (typed_hi\<lparr> isStreaming := True \<rparr>)
   \<and> sendMessage (typed_hi\<lparr> isStreaming := True \<rparr>) = typed_hi\<lparr> isStreaming := True \<rparr>"
  using sendMessage_rejected [of "typed_hi\<lparr> isStreaming := True \<rparr>"]
  by simp


subsection \<open>Errors that end a turn\<close>

text \<open>
  C8. Each error that ends a turn (a missing or malformed \<open>chat_start\<close> reply, a
  transport failure of \<open>chat_start\<close>, an exceeded budget, an \<open>error\<close> field, a transport
  failure of a poll, a malformed poll reply) clears the streaming flag, sets the stream
  handle to null, enables the send button and issues a suggestion refresh.
\<close>

theorem terminal_errors_release:
  "released s (chat_start_callback None s)
   \<and> released s (chat_start_error err s)
   \<and> (\<not> needs_clarification d \<and> budget_exceeded d
        \<longrightarrow> released s (chat_start_callback (Some d) s))
   \<and> (\<not> needs_clarification d \<and> \<not> budget_exceeded d \<and> truthy (error d)
        \<longrightarrow> released s (chat_start_callback (Some d) s))
   \<and> released s (poll_error s)
   \<and> released s (poll_callback c None s)"
  by (simp add: chat_start_callback_def chat_start_error_def poll_error_def poll_callback_def
      released_finishStreaming)

theorem terminal_errors_release_witness:
  "budget_exceeded reply_budget \<and> truthy (error reply_error)
   \<and> released (sendMessage typed_hi) (chat_start_callback (Some reply_budget) (sendMessage typed_hi))
   \<and> released (sendMessage typed_hi) (chat_start_callback (Some reply_error) (sendMessage typed_hi))
   \<and> released (sendMessage typed_hi) (chat_start_callback None (sendMessage typed_hi))"
  using terminal_errors_release [of "sendMessage typed_hi" None reply_budget 0]
    terminal_errors_release [of "sendMessage typed_hi" None reply_error 0]
  by (simp add: reply_budget_def reply_error_def reply_blank_def)


subsection \<open>The invariant of the turn engine\<close>

lemma core_fields:
  assumes "core s' = core s"
  shows "isStreaming s' = isStreaming s" "streamId s' = streamId s"
    "pending s' = pending s" "timers s' = timers s" "in_flight s' = in_flight s"
  using assms by (simp_all add: core_def in_flight_def)

lemma turn_inv_core: "core s' = core s \<Longrightarrow> turn_inv s' = turn_inv s"
  using core_fields [of s' s] by (simp add: turn_inv_def)

lemma in_flight_answered:
  "p \<in> set (pending s) \<Longrightarrow> in_flight (answered p s) + weight p = in_flight s"
  by (simp add: in_flight_def answered_fields sum_list_map_remove1)

lemma weight_le_in_flight: "p \<in> set (pending s) \<Longrightarrow> weight p \<le> in_flight s"
  by (simp add: in_flight_def member_le_sum_list trans_le_add1)

lemma no_start_if_idle: "in_flight s = 0 \<Longrightarrow> PStart \<notin> set (pending s)"
  using weight_le_in_flight [of PStart s] by auto

lemma core_addMessage: "core (snd (addMessage r c s)) = core s"
  by (simp add: core_def addMessage_def Let_def)

lemma core_foldl_addMessage:
  "core (foldl (\<lambda>s' m. snd (addMessage (role m) (content m) s')) s msgs) = core s"
  by (induction msgs arbitrary: s) (simp_all add: core_addMessage)

lemma core_get_session_callback: "core (get_session_callback r s) = core s"
proof (cases r)
  case None
  then show ?thesis by (simp add: get_session_callback_def)
next
  case (Some msgs)
  have "core (s\<lparr> shown := [], welcome_el := False \<rparr>) = core s" by (simp add: core_def)
  then show ?thesis using Some by (simp add: get_session_callback_def core_foldl_addMessage)
qed

lemma core_get_suggestions_callback: "core (get_suggestions_callback r s) = core s"
  by (cases r) (simp_all add: get_suggestions_callback_def renderSuggestions_def core_def)

lemma finishStreaming_in_flight: "in_flight (finishStreaming e s) \<le> in_flight s"
  by (simp add: in_flight_def finishStreaming_def basic_defs Let_def split: option.splits)

lemma turn_inv_finishStreaming: "in_flight s = 0 \<Longrightarrow> turn_inv (finishStreaming e s)"
  using finishStreaming_in_flight [of e s] no_start_if_idle [of s]
  by (simp add: turn_inv_def finishStreaming_fields)

lemma poll_part_core: "core (poll_delta c d (poll_tool_status d s)) = core s"
  by (simp add: core_def poll_delta_def poll_tool_status_def basic_defs Let_def
      split: option.splits prod.splits)

lemma poll_done_fields:
  "isStreaming (poll_done c d s) = False"
  "streamId (poll_done c d s) = None"
  "sendBtn_disabled (poll_done c d s) = False"
  "pending (poll_done c d s) = pending s @ [PSuggest]"
  "timers (poll_done c d s) = timers s"
  "pollers (poll_done c d s) = pollers s"
  "errorBanner (poll_done c d s) = errorBanner s"
  by (simp_all add: poll_done_def basic_defs Let_def)

lemma setTimeout_poll_fields:
  "isStreaming (setTimeout_poll c s) = isStreaming s"
  "streamId (setTimeout_poll c s) = streamId s"
  "pending (setTimeout_poll c s) = pending s"
  "timers (setTimeout_poll c s) = timers s @ [(next_timer s, c)]"
  "pollers (setTimeout_poll c s) = pollers s"
  "messages (setTimeout_poll c s) = messages s"
  "bubbles (setTimeout_poll c s) = bubbles s"
  "calls (setTimeout_poll c s) = calls s"
  "errorBanner (setTimeout_poll c s) = errorBanner s"
  by (simp_all add: setTimeout_poll_def)

lemma turn_inv_poll_callback:
  assumes "in_flight s = 0" "isStreaming s"
  shows "turn_inv (poll_callback c r s)"
proof (cases r)
  case None
  then show ?thesis using assms by (simp add: poll_callback_def turn_inv_finishStreaming)
next
  case (Some d)
  let ?s1 = "poll_delta c d (poll_tool_status d s)"
  note c1 = core_fields [OF poll_part_core, of c d s]
  have ns: "PStart \<notin> set (pending s)" using assms(1) by (rule no_start_if_idle)
  show ?thesis
  proof (cases "p_done d")
    case True
    then have e: "poll_callback c r s = poll_done c d ?s1"
      using Some by (simp add: poll_callback_def)
    have "in_flight (poll_done c d ?s1) = in_flight ?s1"
      by (simp add: in_flight_def poll_done_fields)
    then show ?thesis using assms ns c1
      by (simp add: e turn_inv_def poll_done_fields)
  next
    case False
    then have e: "poll_callback c r s = setTimeout_poll c ?s1"
      using Some by (simp add: poll_callback_def)
    have "in_flight (setTimeout_poll c ?s1) = Suc (in_flight ?s1)"
      by (simp add: in_flight_def setTimeout_poll_fields)
    then show ?thesis using assms ns c1
      by (simp add: e turn_inv_def setTimeout_poll_fields)
  qed
qed

lemma poll_in_flight:
  "in_flight (poll c s) = (if truthy (streamId s) then Suc (in_flight s) else in_flight s)"
  by (simp add: in_flight_def poll_fields)

lemma turn_inv_poll:
  assumes "in_flight s = 0" "isStreaming s"
  shows "turn_inv (poll c s)"
  using assms no_start_if_idle [of s] by (simp add: turn_inv_def poll_in_flight poll_fields)

lemma turn_inv_chat_start_callback:
  assumes "in_flight s = 0" "isStreaming s" "streamId s = None"
  shows "turn_inv (chat_start_callback r s)"
proof (cases r)
  case None
  then show ?thesis using assms by (simp add: chat_start_callback_def turn_inv_finishStreaming)
next
  case (Some d)
  note ns = no_start_if_idle [OF assms(1)]
  show ?thesis
  proof (cases "needs_clarification d")
    case True
    have "core (chat_start_callback r s) = (False, None, pending s, timers s)"
      using Some True assms(3)
      by (simp add: chat_start_callback_def core_def basic_defs Let_def split: option.splits)
    then have "isStreaming (chat_start_callback r s) = False"
      "streamId (chat_start_callback r s) = None"
      "pending (chat_start_callback r s) = pending s"
      "in_flight (chat_start_callback r s) = in_flight s"
      by (simp_all add: core_def in_flight_def)
    then show ?thesis using assms ns by (simp add: turn_inv_def)
  next
    case False
    show ?thesis
    proof (cases "budget_exceeded d \<or> truthy (error d)")
      case True
      then obtain e where "chat_start_callback r s = finishStreaming e s"
        using Some \<open>\<not> needs_clarification d\<close> by (auto simp: chat_start_callback_def)
      then show ?thesis using assms by (simp add: turn_inv_finishStreaming)
    next
      case b: False
      let ?s1 = "s\<lparr> streamId := stream_id d, sessionId := session_id d \<rparr>"
      have e: "chat_start_callback r s = poll (length (pollers s))
                  (?s1\<lparr> pollers := pollers s @ [\<lparr> lastLength = Some 0, assistantBubble = None \<rparr>] \<rparr>)"
        using Some False b by (simp add: chat_start_callback_def startPolling_def)
      have "in_flight (?s1\<lparr> pollers := pollers s @ [\<lparr> lastLength = Some 0, assistantBubble = None \<rparr>] \<rparr>) = 0"
        using assms(1) by (simp add: in_flight_def)
      then show ?thesis unfolding e using assms(2) by (intro turn_inv_poll) simp_all
    qed
  qed
qed

lemma core_startNewChat:
  "core (startNewChat s) = (isStreaming s, streamId s, pending s @ [PSuggest], timers s)"
  by (simp add: core_def startNewChat_def basic_defs Let_def)

lemma turn_inv_pending_append:
  assumes "turn_inv s" "core s' = (isStreaming s, streamId s, pending s @ [p], timers s)"
    "weight p = 0"
  shows "turn_inv s'"
proof -
  have "isStreaming s' = isStreaming s" "streamId s' = streamId s"
    "pending s' = pending s @ [p]" "in_flight s' = in_flight s"
    using assms(2,3) by (simp_all add: core_def in_flight_def)
  moreover have "p \<noteq> PStart" using assms(3) by auto
  ultimately show ?thesis using assms(1) by (simp add: turn_inv_def)
qed

lemma turn_inv_answered:
  assumes "turn_inv s" "p \<in> set (pending s)" "weight p = 0"
  shows "turn_inv (answered p s)"
proof -
  have "in_flight (answered p s) = in_flight s"
    using in_flight_answered [OF assms(2)] assms(3) by simp
  moreover have "p \<noteq> PStart" using assms(3) by auto
  ultimately show ?thesis using assms(1) by (simp add: turn_inv_def answered_fields)
qed

lemma turn_inv_sendMessage: "turn_inv s \<Longrightarrow> turn_inv (sendMessage s)"
proof (cases "trim (input_value s) = [] \<or> isStreaming s")
  case True
  assume "turn_inv s"
  then show ?thesis using sendMessage_skip [OF True] by simp
next
  case False
  assume i: "turn_inv s"
  have f: "trim (input_value s) \<noteq> []" "\<not> isStreaming s" using False by auto
  have z: "in_flight s = 0" "streamId s = None"
    using i f by (auto simp: turn_inv_def)
  have "in_flight (sendMessage s) = 1"
    using z sendMessage_accepted [OF f] by (simp add: in_flight_def)
  then show ?thesis
    using z sendMessage_accepted [OF f] by (simp add: turn_inv_def)
qed

lemma fired_fields:
  "isStreaming (fired h s) = isStreaming s"
  "streamId (fired h s) = streamId s"
  "pending (fired h s) = pending s"
  "timers (fired h s) = filter (\<lambda>(h', c). h' \<noteq> h) (timers s)"
  by (simp_all add: fired_def)

lemma inv_input: "turn_inv s \<Longrightarrow> turn_inv (s\<lparr> input_value := x \<rparr>)"
  using turn_inv_core [of "s\<lparr> input_value := x \<rparr>" s] by (simp add: core_def)

lemma inv_StartReply:
  assumes "turn_inv s" and p: "PStart \<in> set (pending s)"
  shows "turn_inv (chat_start_callback r (answered PStart s))"
proof -
  have "1 \<le> in_flight s" using weight_le_in_flight [OF p] by simp
  then have f: "in_flight s = 1" "isStreaming s" "streamId s = None"
    using assms by (simp_all add: turn_inv_def)
  have "in_flight (answered PStart s) = 0"
    using in_flight_answered [OF p] f(1) by simp
  then show ?thesis
    using f(2,3) by (intro turn_inv_chat_start_callback) (simp_all add: answered_fields)
qed

lemma inv_StartFailed:
  assumes "turn_inv s" and p: "PStart \<in> set (pending s)"
  shows "turn_inv (chat_start_error err (answered PStart s))"
proof -
  have "1 \<le> in_flight s" using weight_le_in_flight [OF p] by simp
  then have "in_flight s = 1" using assms by (simp add: turn_inv_def)
  then have "in_flight (answered PStart s) = 0"
    using in_flight_answered [OF p] by simp
  then show ?thesis unfolding chat_start_error_def by (rule turn_inv_finishStreaming)
qed

lemma poll_answered_idle:
  assumes "turn_inv s" and p: "PPoll c \<in> set (pending s)"
  shows "in_flight (answered (PPoll c) s) = 0" and "isStreaming s"
proof -
  have "1 \<le> in_flight s" using weight_le_in_flight [OF p] by simp
  then have f: "in_flight s = 1" "isStreaming s"
    using assms by (simp_all add: turn_inv_def)
  show "in_flight (answered (PPoll c) s) = 0"
    using in_flight_answered [OF p] f(1) by simp
  show "isStreaming s" by (rule f(2))
qed

lemma inv_PollReply:
  assumes "turn_inv s" and p: "PPoll c \<in> set (pending s)"
  shows "turn_inv (poll_callback c r (answered (PPoll c) s))"
  using poll_answered_idle [OF assms]
  by (intro turn_inv_poll_callback) (simp_all add: answered_fields)

lemma inv_PollFailed:
  assumes "turn_inv s" and p: "PPoll c \<in> set (pending s)"
  shows "turn_inv (poll_error (answered (PPoll c) s))"
  unfolding poll_error_def
  using poll_answered_idle(1) [OF assms] by (rule turn_inv_finishStreaming)

lemma inv_TimerFires:
  assumes "turn_inv s" and m: "map_of (timers s) h = Some c"
  shows "turn_inv (poll c (fired h s))"
proof -
  have mem: "(h, c) \<in> set (timers s)" using m by (rule map_of_SomeD)
  then have "1 \<le> length (timers s)" by (cases "timers s") simp_all
  then have "1 \<le> in_flight s" by (simp add: in_flight_def)
  then have one: "in_flight s = 1" "isStreaming s"
    using assms(1) by (simp_all add: turn_inv_def)
  have "\<not> (case (h, c) of (h', c) \<Rightarrow> h' \<noteq> h)" by simp
  with mem have "length (filter (\<lambda>(h', c). h' \<noteq> h) (timers s)) < length (timers s)"
    by (rule length_filter_less)
  then have "in_flight (fired h s) < in_flight s"
    by (simp add: in_flight_def fired_fields)
  then have "in_flight (fired h s) = 0" using one(1) by simp
  then show ?thesis using one(2) by (intro turn_inv_poll) (simp_all add: fired_fields)
qed

lemma inv_NewChat: "turn_inv s \<Longrightarrow> turn_inv (startNewChat s)"
  by (erule turn_inv_pending_append [OF _ core_startNewChat]) simp

lemma inv_LoadSession: "turn_inv s \<Longrightarrow> turn_inv (loadSession sid s)"
proof -
  assume i: "turn_inv s"
  have "core (loadSession sid s) = (isStreaming s, streamId s, pending s @ [PSession], timers s)"
    by (simp add: core_def loadSession_def frappe_call_def)
  with i show ?thesis by (rule turn_inv_pending_append) simp
qed

lemma inv_SessionReply:
  assumes "turn_inv s" and p: "PSession \<in> set (pending s)"
  shows "turn_inv (get_session_callback r (answered PSession s))"
proof -
  have "turn_inv (answered PSession s)" using assms by (rule turn_inv_answered) simp
  then show ?thesis by (simp add: turn_inv_core [OF core_get_session_callback])
qed

lemma inv_SuggestionsReply:
  assumes "turn_inv s" and p: "PSuggest \<in> set (pending s)"
  shows "turn_inv (get_suggestions_callback r (answered PSuggest s))"
proof -
  have "turn_inv (answered PSuggest s)" using assms by (rule turn_inv_answered) simp
  then show ?thesis by (simp add: turn_inv_core [OF core_get_suggestions_callback])
qed

lemma step_turn_inv:
  assumes "turn_inv s" "step e s = Some s'"
  shows "turn_inv s'"
proof (cases e)
  case (Type t)
  then have "s' = s\<lparr> input_value := t \<rparr>" using assms(2) by simp
  then show ?thesis using assms(1) by (simp add: inv_input)
next
  case Send
  then have "s' = sendMessage s" using assms(2) by simp
  then show ?thesis using assms(1) by (simp add: turn_inv_sendMessage)
next
  case (ClickChip i)
  then have "s' = sendMessage (s\<lparr> input_value := snd (suggestions s ! i) \<rparr>)"
    using assms(2) by (simp split: if_splits)
  then show ?thesis using assms(1) by (simp add: turn_inv_sendMessage inv_input)
next
  case NewChat
  then have "s' = startNewChat s" using assms(2) by simp
  then show ?thesis using assms(1) by (simp add: inv_NewChat)
next
  case (LoadSession sid)
  then have "s' = loadSession sid s" using assms(2) by simp
  then show ?thesis using assms(1) by (simp add: inv_LoadSession)
next
  case (StartReply r)
  then have "PStart \<in> set (pending s)" "s' = chat_start_callback r (answered PStart s)"
    using assms(2) by (simp_all split: if_splits)
  then show ?thesis using assms(1) by (simp add: inv_StartReply)
next
  case (StartFailed err)
  then have "PStart \<in> set (pending s)" "s' = chat_start_error err (answered PStart s)"
    using assms(2) by (simp_all split: if_splits)
  then show ?thesis using assms(1) by (simp add: inv_StartFailed)
next
  case (PollReply c r)
  then have "PPoll c \<in> set (pending s)" "s' = poll_callback c r (answered (PPoll c) s)"
    using assms(2) by (simp_all split: if_splits)
  then show ?thesis using assms(1) by (simp add: inv_PollReply)
next
  case (PollFailed c)
  then have "PPoll c \<in> set (pending s)" "s' = poll_error (answered (PPoll c) s)"
    using assms(2) by (simp_all split: if_splits)
  then show ?thesis using assms(1) by (simp add: inv_PollFailed)
next
  case (TimerFires h)
  then obtain c where "map_of (timers s) h = Some c" "s' = poll c (fired h s)"
    using assms(2) by (auto split: option.splits)
  then show ?thesis using assms(1) by (simp add: inv_TimerFires)
next
  case (SessionReply r)
  then have "PSession \<in> set (pending s)" "s' = get_session_callback r (answered PSession s)"
    using assms(2) by (simp_all split: if_splits)
  then show ?thesis using assms(1) by (simp add: inv_SessionReply)
next
  case (SuggestionsReply r)
  then have "PSuggest \<in> set (pending s)" "s' = get_suggestions_callback r (answered PSuggest s)"
    using assms(2) by (simp_all split: if_splits)
  then show ?thesis using assms(1) by (simp add: inv_SuggestionsReply)
qed

lemma run_turn_inv: "turn_inv s \<Longrightarrow> run es s = Some s' \<Longrightarrow> turn_inv s'"
proof (induction es arbitrary: s)
  case Nil
  then show ?case by simp
next
  case (Cons e es)
  from Cons.prems(2) obtain s1 where 1: "step e s = Some s1" and 2: "run es s1 = Some s'"
    by (auto split: option.splits)
  have "turn_inv s1" using Cons.prems(1) 1 by (rule step_turn_inv)
  then show ?case using 2 by (rule Cons.IH)
qed

lemma turn_inv_state0: "turn_inv state0"
  by (simp add: turn_inv_def in_flight_def state0_def)

text \<open>
  C10, the claim as stated. The two fields are not set in one block: the send raises the
  flag and leaves the handle null, and the handle is set only when the reply arrives, in
  a later callback. Nor are they always cleared together: a clarification reply clears
  the flag alone.
\<close>

theorem flag_raised_before_handle:
  "\<not> isStreaming typed_hi \<and> streamId typed_hi = None
   \<and> step Send typed_hi = Some (sendMessage typed_hi)
   \<and> isStreaming (sendMessage typed_hi) \<and> streamId (sendMessage typed_hi) = None
   \<and> map_option (\<lambda>s. (isStreaming s, streamId s)) (run run_to_stream state0)
       = Some (True, Some ''s1'')
   \<and> map_option (\<lambda>s. (isStreaming s, streamId s))
        (run [Type ''hi'', Send, StartReply (Some reply_clarify)] state0)
       = Some (False, None)"
  by code_simp

text \<open>
  C10, amended. In every state the widget reaches from its initial state, by any sequence
  of user actions, replies, failures and timer firings, a stream handle that is not null
  implies that the streaming flag is set. While the reply to \<open>chat_start\<close> is awaited the
  flag is set and the handle is null; \<open>finishStreaming\<close> and the final poll clear both
  fields in one block.
\<close>

theorem handle_implies_streaming:
  assumes "run es state0 = Some s"
  shows "(streamId s \<noteq> None \<longrightarrow> isStreaming s)
    \<and> (PStart \<in> set (pending s) \<longrightarrow> isStreaming s \<and> streamId s = None)
    \<and> \<not> isStreaming (finishStreaming e s) \<and> streamId (finishStreaming e s) = None
    \<and> \<not> isStreaming (poll_done c d s) \<and> streamId (poll_done c d s) = None"
proof -
  have i: "turn_inv s" using turn_inv_state0 assms by (rule run_turn_inv)
  have "PStart \<in> set (pending s) \<Longrightarrow> isStreaming s \<and> streamId s = None"
  proof -
    assume p: "PStart \<in> set (pending s)"
    have "1 \<le> in_flight s" using weight_le_in_flight [OF p] by simp
    then show ?thesis using i p by (simp add: turn_inv_def)
  qed
  then show ?thesis
    using i by (simp add: turn_inv_def finishStreaming_fields poll_done_fields)
qed

theorem handle_implies_streaming_witness:
  "run run_to_stream state0 \<noteq> None
   \<and> streamId (the (run run_to_stream state0)) \<noteq> None
   \<and> isStreaming (the (run run_to_stream state0))
   \<and> run [Type ''hi'', Send] state0 \<noteq> None
   \<and> PStart \<in> set (pending (the (run [Type ''hi'', Send] state0)))
   \<and> isStreaming (the (run [Type ''hi'', Send] state0))
   \<and> streamId (the (run [Type ''hi'', Send] state0)) = None"
proof -
  have 1: "run run_to_stream state0 \<noteq> None" "run [Type ''hi'', Send] state0 \<noteq> None"
    by code_simp+
  have 2: "streamId (the (run run_to_stream state0)) \<noteq> None"
    "PStart \<in> set (pending (the (run [Type ''hi'', Send] state0)))"
    by code_simp+
  from 1 have r: "run run_to_stream state0 = Some (the (run run_to_stream state0))"
    "run [Type ''hi'', Send] state0 = Some (the (run [Type ''hi'', Send] state0))"
    by simp_all
  show ?thesis
    using 1 2 handle_implies_streaming [OF r(1)] handle_implies_streaming [OF r(2)]
    by simp
qed


subsection \<open>The poll callback\<close>

lemma poll_tool_status_fields:
  "messages (poll_tool_status d s) = messages s"
  "bubbles (poll_tool_status d s) = bubbles s"
  "shown (poll_tool_status d s) = shown s"
  "pollers (poll_tool_status d s) = pollers s"
  "errorBanner (poll_tool_status d s) = errorBanner s"
  "calls (poll_tool_status d s) = calls s"
  by (simp_all add: poll_tool_status_def basic_defs)

lemma poll_delta_skip: "\<not> p_delta d \<Longrightarrow> poll_delta c d s = s"
  by (simp add: poll_delta_def)

lemma poll_delta_fresh:
  assumes "p_delta d" "c < length (pollers s)" "assistantBubble (pollers s ! c) = None"
  shows "messages (poll_delta c d s) = messages s @ [\<lparr> role = Assistant, content = Some [] \<rparr>]"
    and "bubbles (poll_delta c d s) = bubbles s
           @ [\<lparr> msg_role = Assistant, inner_html = renderMarkdown (p_text d), actions = None \<rparr>]"
    and "shown (poll_delta c d s) = shown s @ [length (bubbles s)]"
    and "errorBanner (poll_delta c d s) = errorBanner s"
    and "pollers (poll_delta c d s) = (pollers s)
           [c := \<lparr> lastLength = p_text_length d, assistantBubble = Some (length (bubbles s)) \<rparr>]"
  using assms by (simp_all add: poll_delta_def basic_defs Let_def)

lemma poll_delta_again:
  assumes "p_delta d" "c < length (pollers s)" "assistantBubble (pollers s ! c) = Some b"
  shows "messages (poll_delta c d s) = messages s"
    and "bubbles (poll_delta c d s)
           = (bubbles s)[b := (bubbles s ! b)\<lparr> inner_html := renderMarkdown (p_text d) \<rparr>]"
    and "shown (poll_delta c d s) = shown s"
    and "errorBanner (poll_delta c d s) = errorBanner s"
    and "pollers (poll_delta c d s) = (pollers s)
           [c := \<lparr> lastLength = p_text_length d, assistantBubble = Some b \<rparr>]"
  using assms by (simp_all add: poll_delta_def basic_defs Let_def)

lemma poll_done_error_fields:
  assumes "truthy (p_error d)"
  shows "assistantBubble (pollers s ! c) = None \<Longrightarrow>
           messages (poll_done c d s) = messages s @ [\<lparr> role = Assistant, content = p_error d \<rparr>]
           \<and> bubbles (poll_done c d s) = bubbles s
               @ [\<lparr> msg_role = Assistant, inner_html = renderMarkdown (p_error d), actions = p_error d \<rparr>]
           \<and> shown (poll_done c d s) = shown s @ [length (bubbles s)]"
    and "assistantBubble (pollers s ! c) \<noteq> None \<Longrightarrow>
           messages (poll_done c d s) = messages s \<and> bubbles (poll_done c d s) = bubbles s
           \<and> shown (poll_done c d s) = shown s"
    and "errorBanner (poll_done c d s) = errorBanner s"
  using assms by (simp_all add: poll_done_def basic_defs Let_def)

text \<open>
  C7. When a poll reply is final and carries an error string, the error becomes an
  assistant message only if the closure has no bubble yet, that is, if no delta was
  processed before and this reply brings none. If a bubble exists already, or this very
  reply brings a delta, no message carries the error, the error banner is not used, and
  the bubble shows the streamed text.
\<close>

theorem poll_done_error_display:
  assumes "p_done d" and "truthy (p_error d)" and "c < length (pollers s)"
  shows "errorBanner (poll_callback c (Some d) s) = errorBanner s
    \<and> (assistantBubble (pollers s ! c) = None \<and> \<not> p_delta d \<longrightarrow>
         messages (poll_callback c (Some d) s)
           = messages s @ [\<lparr> role = Assistant, content = p_error d \<rparr>]
         \<and> bubbles (poll_callback c (Some d) s) = bubbles s
             @ [\<lparr> msg_role = Assistant, inner_html = renderMarkdown (p_error d),
                  actions = p_error d \<rparr>]
         \<and> shown (poll_callback c (Some d) s) = shown s @ [length (bubbles s)])
    \<and> (assistantBubble (pollers s ! c) = None \<and> p_delta d \<longrightarrow>
         messages (poll_callback c (Some d) s)
           = messages s @ [\<lparr> role = Assistant, content = Some [] \<rparr>]
         \<and> bubbles (poll_callback c (Some d) s) = bubbles s
             @ [\<lparr> msg_role = Assistant, inner_html = renderMarkdown (p_text d), actions = None \<rparr>]
         \<and> shown (poll_callback c (Some d) s) = shown s @ [length (bubbles s)])
    \<and> (\<forall>b. assistantBubble (pollers s ! c) = Some b \<longrightarrow>
         messages (poll_callback c (Some d) s) = messages s
         \<and> shown (poll_callback c (Some d) s) = shown s
         \<and> bubbles (poll_callback c (Some d) s)
             = (if p_delta d
                then (bubbles s)[b := (bubbles s ! b)\<lparr> inner_html := renderMarkdown (p_text d) \<rparr>]
                else bubbles s))"
proof -
  let ?t = "poll_tool_status d s"
  let ?s1 = "poll_delta c d ?t"
  have t: "?t = s" using assms(1) by (simp add: poll_tool_status_def)
  have cb: "poll_callback c (Some d) s = poll_done c d (poll_delta c d s)"
    using assms(1) t by (simp add: poll_callback_def)
  have e: "errorBanner (poll_callback c (Some d) s) = errorBanner s"
    by (cases "p_delta d"; cases "assistantBubble (pollers s ! c)")
       (simp_all add: cb poll_done_error_fields(3) [OF assms(2)] poll_delta_skip
          poll_delta_fresh(4) poll_delta_again(4) assms(3))
  have 1: "assistantBubble (pollers s ! c) = None \<and> \<not> p_delta d \<longrightarrow>
         messages (poll_callback c (Some d) s)
           = messages s @ [\<lparr> role = Assistant, content = p_error d \<rparr>]
         \<and> bubbles (poll_callback c (Some d) s) = bubbles s
             @ [\<lparr> msg_role = Assistant, inner_html = renderMarkdown (p_error d),
                  actions = p_error d \<rparr>]
         \<and> shown (poll_callback c (Some d) s) = shown s @ [length (bubbles s)]"
    using poll_done_error_fields(1) [OF assms(2), of s c]
    by (simp add: cb poll_delta_skip)
  have 2: "assistantBubble (pollers s ! c) = None \<and> p_delta d \<longrightarrow>
         messages (poll_callback c (Some d) s)
           = messages s @ [\<lparr> role = Assistant, content = Some [] \<rparr>]
         \<and> bubbles (poll_callback c (Some d) s) = bubbles s
             @ [\<lparr> msg_role = Assistant, inner_html = renderMarkdown (p_text d), actions = None \<rparr>]
         \<and> shown (poll_callback c (Some d) s) = shown s @ [length (bubbles s)]"
  proof (intro impI, elim conjE)
    assume n: "assistantBubble (pollers s ! c) = None" and dl: "p_delta d"
    note f = poll_delta_fresh [OF dl assms(3) n]
    have "assistantBubble (pollers (poll_delta c d s) ! c) \<noteq> None"
      using assms(3) by (simp add: f(5))
    from poll_done_error_fields(2) [OF assms(2) this] show
      "messages (poll_callback c (Some d) s)
           = messages s @ [\<lparr> role = Assistant, content = Some [] \<rparr>]
         \<and> bubbles (poll_callback c (Some d) s) = bubbles s
             @ [\<lparr> msg_role = Assistant, inner_html = renderMarkdown (p_text d), actions = None \<rparr>]
         \<and> shown (poll_callback c (Some d) s) = shown s @ [length (bubbles s)]"
      by (simp add: cb f)
  qed
  have 3: "\<forall>b. assistantBubble (pollers s ! c) = Some b \<longrightarrow>
         messages (poll_callback c (Some d) s) = messages s
         \<and> shown (poll_callback c (Some d) s) = shown s
         \<and> bubbles (poll_callback c (Some d) s)
             = (if p_delta d
                then (bubbles s)[b := (bubbles s ! b)\<lparr> inner_html := renderMarkdown (p_text d) \<rparr>]
                else bubbles s)"
  proof (intro allI impI)
    fix b assume sb: "assistantBubble (pollers s ! c) = Some b"
    show "messages (poll_callback c (Some d) s) = messages s
         \<and> shown (poll_callback c (Some d) s) = shown s
         \<and> bubbles (poll_callback c (Some d) s)
             = (if p_delta d
                then (bubbles s)[b := (bubbles s ! b)\<lparr> inner_html := renderMarkdown (p_text d) \<rparr>]
                else bubbles s)"
    proof (cases "p_delta d")
      case True
      note f = poll_delta_again [OF True assms(3) sb]
      have "assistantBubble (pollers (poll_delta c d s) ! c) \<noteq> None"
        using assms(3) by (simp add: f(5))
      from poll_done_error_fields(2) [OF assms(2) this] show ?thesis
        using True by (simp add: cb f)
    next
      case False
      have "assistantBubble (pollers s ! c) \<noteq> None" using sb by simp
      from poll_done_error_fields(2) [OF assms(2) this] show ?thesis
        using False by (simp add: cb poll_delta_skip)
    qed
  qed
  from e 1 2 3 show ?thesis by blast
qed


theorem poll_done_error_display_witness:
  "p_done poll_failed \<and> truthy (p_error poll_failed)
   \<and> messages (poll_callback 0 (Some poll_failed) (the (run run_to_stream state0)))
       = messages (the (run run_to_stream state0))
         @ [\<lparr> role = Assistant, content = Some ''Model unavailable'' \<rparr>]
   \<and> messages (poll_callback 0 (Some (poll_failed\<lparr> p_delta := True, p_text := Some ''Hel'' \<rparr>))
        (the (run run_to_stream state0)))
       = messages (the (run run_to_stream state0)) @ [\<lparr> role = Assistant, content = Some [] \<rparr>]"
proof -
  let ?s = "the (run run_to_stream state0)"
  let ?d = "poll_failed\<lparr> p_delta := True, p_text := Some ''Hel'' \<rparr>"
  have c: "0 < length (pollers ?s)" "assistantBubble (pollers ?s ! 0) = None"
    by code_simp+
  have d: "p_done poll_failed" "truthy (p_error poll_failed)" "\<not> p_delta poll_failed"
    "p_error poll_failed = Some ''Model unavailable''"
    by (simp_all add: poll_failed_def poll_blank_def)
  have d': "p_done ?d" "truthy (p_error ?d)" "p_delta ?d"
    by (simp_all add: poll_failed_def poll_blank_def)
  show ?thesis
    using c d poll_done_error_display [OF d(1,2) c(1)] poll_done_error_display [OF d'(1,2) c(1)] d'(3)
    by simp
qed

subsection \<open>New chat during a stream\<close>

text \<open>
  C3. \<open>startNewChat\<close> resets the session id and the message list but leaves the stream
  handle alone. In the sample run a stream is open and its poll timer armed when the
  user starts a new chat: the handle is still \<open>s1\<close> afterwards, the timer's poll finds
  it and sends the next request, and the reply appends the assistant placeholder to the
  new chat's messages and advances the watermark.
\<close>

theorem new_chat_keeps_stream:
  "streamId (the (run (run_to_stream @ [PollReply 0 (Some poll_tool), NewChat]) state0)) = Some ''s1''
   \<and> map_option (\<lambda>s. (streamId s, messages s, lastLength (pollers s ! 0), last (calls s)))
        (run (run_to_stream @ [PollReply 0 (Some poll_tool), NewChat, TimerFires 1]) state0)
       = Some (Some ''s1'', [], Some 0, StreamPoll (Some ''s1'') (Some 0))
   \<and> map_option (\<lambda>s. (streamId s, messages s, lastLength (pollers s ! 0)))
        (run run_new_chat state0)
       = Some (Some ''s1'', [\<lparr> role = Assistant, content = Some [] \<rparr>], Some 5)"
  by code_simp

subsection \<open>The suggestion refresh after a streamed turn\<close>

text \<open>
  C9. After a streamed turn the handle is cleared, the flag is down, and
  \<open>loadSuggestions\<close> is called with the contents of the last user and the last assistant
  message. For a reply that came as deltas, the stored assistant message is the
  placeholder made for the first delta, whose content stays empty: the run below streams
  \<open>Hello\<close>, and the refresh is sent without a last response.
\<close>

theorem suggestions_after_stream:
  "map_option (\<lambda>s. (streamId s, isStreaming s, messages s, last (calls s)))
     (run run_streamed state0)
   = Some (None, False,
       [\<lparr> role = User, content = Some ''hi'' \<rparr>, \<lparr> role = Assistant, content = Some [] \<rparr>],
       GetSuggestions (Some ''hi'') None ''dashboard'')"
  by code_simp


subsection \<open>The watermark\<close>

lemma pollers_addMessage: "pollers (snd (addMessage r c s)) = pollers s"
  by (simp add: addMessage_def Let_def)

lemma pollers_foldl_addMessage:
  "pollers (foldl (\<lambda>s' m. snd (addMessage (role m) (content m) s')) s msgs) = pollers s"
  by (induction msgs arbitrary: s) (simp_all add: pollers_addMessage)

lemma pollers_sendMessage: "pollers (sendMessage s) = pollers s"
  by (cases "trim (input_value s) = [] \<or> isStreaming s")
     (simp_all add: sendMessage_skip sendMessage_accepted)

lemma pollers_get_session_callback: "pollers (get_session_callback r s) = pollers s"
  by (cases r) (simp_all add: get_session_callback_def pollers_foldl_addMessage)

lemma pollers_misc:
  "pollers (startNewChat s) = pollers s"
  "pollers (loadSession sid s) = pollers s"
  "pollers (get_suggestions_callback q s) = pollers s"
  "pollers (fired h s) = pollers s"
  "pollers (chat_start_error err s) = pollers s"
  "pollers (poll_error s) = pollers s"
  by (simp_all add: startNewChat_def loadSession_def
      get_suggestions_callback_def renderSuggestions_def fired_def chat_start_error_def
      poll_error_def finishStreaming_fields basic_defs Let_def
      split: option.splits)

lemma pollers_chat_start_callback:
  "pollers (chat_start_callback r s) = pollers s
   \<or> pollers (chat_start_callback r s)
       = pollers s @ [\<lparr> lastLength = Some 0, assistantBubble = None \<rparr>]"
  by (cases r)
     (simp_all add: chat_start_callback_def finishStreaming_fields startPolling_fields
        basic_defs Let_def split: option.splits)

lemma pollers_poll_delta:
  "pollers (poll_delta c d s) =
     (if p_delta d
      then (pollers s)[c := \<lparr> lastLength = p_text_length d,
             assistantBubble = Some (case assistantBubble (pollers s ! c) of
                                       None \<Rightarrow> length (bubbles s) | Some b \<Rightarrow> b) \<rparr>]
      else pollers s)"
  by (simp add: poll_delta_def basic_defs Let_def split: option.splits)

lemma pollers_poll_callback:
  "pollers (poll_callback c r s) =
     (case r of None \<Rightarrow> pollers s
      | Some d \<Rightarrow>
          if p_delta d
          then (pollers s)[c := \<lparr> lastLength = p_text_length d,
                 assistantBubble = Some (case assistantBubble (pollers s ! c) of
                                           None \<Rightarrow> length (bubbles s) | Some b \<Rightarrow> b) \<rparr>]
          else pollers s)"
  by (cases r)
     (simp_all add: poll_callback_def finishStreaming_fields poll_done_fields Let_def
        setTimeout_poll_fields pollers_poll_delta poll_tool_status_fields
        cong: option.case_cong)

text \<open>What one event does to the closures.\<close>

lemma step_pollers:
  assumes "step e s = Some s'"
  shows "length (pollers s) \<le> length (pollers s')"
    and "c < length (pollers s) \<Longrightarrow>
           lastLength (pollers s' ! c)
             = (if reported c [e] = [] then lastLength (pollers s ! c) else hd (reported c [e]))"
    and "\<not> c < length (pollers s) \<Longrightarrow> c < length (pollers s') \<Longrightarrow>
           lastLength (pollers s' ! c) = Some 0"
proof -
  have "length (pollers s) \<le> length (pollers s')
    \<and> (c < length (pollers s) \<longrightarrow>
           lastLength (pollers s' ! c)
             = (if reported c [e] = [] then lastLength (pollers s ! c) else hd (reported c [e])))
    \<and> (\<not> c < length (pollers s) \<longrightarrow> c < length (pollers s') \<longrightarrow>
           lastLength (pollers s' ! c) = Some 0)"
  proof (cases e)
    case (StartReply r)
    then have s': "s' = chat_start_callback r (answered PStart s)"
      using assms by (simp split: if_splits)
    from pollers_chat_start_callback [of r "answered PStart s"]
    show ?thesis unfolding s' using StartReply
      by (auto simp: answered_fields nth_append)
  next
    case (PollReply c' r)
    then have s': "s' = poll_callback c' r (answered (PPoll c') s)"
      using assms by (simp split: if_splits)
    have b: "pollers s' =
       (case r of None \<Rightarrow> pollers s
        | Some d \<Rightarrow>
            if p_delta d
            then (pollers s)[c' := \<lparr> lastLength = p_text_length d,
                   assistantBubble = Some (case assistantBubble (pollers s ! c') of
                                             None \<Rightarrow> length (bubbles s) | Some b \<Rightarrow> b) \<rparr>]
            else pollers s)"
      by (cases r)
         (simp_all add: s' pollers_poll_callback answered_fields cong: option.case_cong)
    show ?thesis
    proof (cases r)
      case None
      then show ?thesis using b PollReply by simp
    next
      case (Some d)
      then show ?thesis using b PollReply by (auto simp: nth_list_update)
    qed
  next
    case (TimerFires h)
    then obtain k where "s' = poll k (fired h s)"
      using assms by (auto split: option.splits)
    then show ?thesis using TimerFires by (simp add: poll_fields pollers_misc)
  qed (use assms in \<open>auto simp: pollers_sendMessage pollers_misc pollers_get_session_callback
        answered_fields split: if_splits\<close>)
  then show "length (pollers s) \<le> length (pollers s')"
    and "c < length (pollers s) \<Longrightarrow>
           lastLength (pollers s' ! c)
             = (if reported c [e] = [] then lastLength (pollers s ! c) else hd (reported c [e]))"
    and "\<not> c < length (pollers s) \<Longrightarrow> c < length (pollers s') \<Longrightarrow>
           lastLength (pollers s' ! c) = Some 0"
    by blast+
qed

lemma reported_Cons: "reported c (e # es) = reported c [e] @ reported c es"
  by (cases "(c, e # es)" rule: reported.cases) simp_all

lemma reported_single: "reported c [e] = [] \<or> (\<exists>x. reported c [e] = [x])"
  by (cases "(c, [e])" rule: reported.cases) simp_all

lemma watermarks_live:
  assumes "c < length (pollers s)" "lastLength (pollers s ! c) = Some l"
    "reported c es = map Some ns" "sorted ns" "\<forall>n\<in>set ns. l \<le> n"
  shows "\<exists>ws. watermarks c es s = map Some (l # ws) \<and> sorted (l # ws)"
  using assms
proof (induction es arbitrary: s l ns)
  case Nil
  then show ?case by (intro exI [of _ "[]"]) simp
next
  case (Cons e es)
  show ?case
  proof (cases "step e s")
    case None
    then show ?thesis using Cons.prems(1,2) by (intro exI [of _ "[]"]) simp
  next
    case (Some s')
    have live: "c < length (pollers s')"
      using step_pollers(1) [OF Some] Cons.prems(1) by simp
    note nxt = step_pollers(2) [OF Some Cons.prems(1)]
    have split: "reported c [e] @ reported c es = map Some ns"
      using Cons.prems(3) reported_Cons [of c e es] by simp
    obtain l' ns' where l': "lastLength (pollers s' ! c) = Some l'" "l \<le> l'"
      and ns': "reported c es = map Some ns'" "sorted ns'" "\<forall>n\<in>set ns'. l' \<le> n"
    proof (cases "reported c [e] = []")
      case True
      then have "lastLength (pollers s' ! c) = Some l" "reported c es = map Some ns"
        using nxt split Cons.prems(2) by simp_all
      then show ?thesis using that [of l ns] Cons.prems(4,5) by simp
    next
      case False
      then obtain x where x: "reported c [e] = [x]" using reported_single [of c e] by auto
      then obtain n ns'' where n: "ns = n # ns''" "x = Some n" "reported c es = map Some ns''"
        using split by (cases ns) auto
      have "lastLength (pollers s' ! c) = Some n" using nxt x n(2) by simp
      then show ?thesis using that [of n ns''] n Cons.prems(4,5) by simp
    qed
    from Cons.IH [OF live l'(1) ns'] obtain ws
      where ws: "watermarks c es s' = map Some (l' # ws)" "sorted (l' # ws)" by blast
    have "watermarks c (e # es) s = map Some (l # l' # ws)"
      using Some Cons.prems(1,2) ws(1) by simp
    moreover have "sorted (l # l' # ws)" using ws(2) l'(2) by auto
    ultimately show ?thesis by blast
  qed
qed

lemma watermarks_unborn:
  assumes "\<not> c < length (pollers s)" "reported c es = map Some ns" "sorted ns"
  shows "\<exists>ws. watermarks c es s = map Some ws \<and> sorted ws \<and> (ws \<noteq> [] \<longrightarrow> hd ws = 0)"
  using assms
proof (induction es arbitrary: s ns)
  case Nil
  then show ?case by (intro exI [of _ "[]"]) simp
next
  case (Cons e es)
  show ?case
  proof (cases "step e s")
    case None
    then show ?thesis using Cons.prems(1) by (intro exI [of _ "[]"]) simp
  next
    case (Some s')
    have w: "watermarks c (e # es) s = watermarks c es s'"
      using Some Cons.prems(1) by simp
    have "reported c [e] @ reported c es = map Some ns"
      using Cons.prems(2) reported_Cons [of c e es] by simp
    then have "reported c es = map Some ns \<or> reported c es = map Some (tl ns)"
      using reported_single [of c e] by (cases ns) auto
    moreover have "sorted (tl ns)" using Cons.prems(3) by (cases ns) simp_all
    ultimately obtain ns' where ns': "reported c es = map Some ns'" "sorted ns'"
      using Cons.prems(3) by blast
    show ?thesis
    proof (cases "c < length (pollers s')")
      case True
      have z: "lastLength (pollers s' ! c) = Some 0"
        using step_pollers(3) [OF Some Cons.prems(1) True] .
      from watermarks_live [OF True z ns'] obtain ws
        where "watermarks c es s' = map Some (0 # ws)" "sorted (0 # ws)" by auto
      then show ?thesis unfolding w by (intro exI [of _ "0 # ws"]) simp
    next
      case False
      from Cons.IH [OF False ns'] show ?thesis unfolding w .
    qed
  qed
qed

text \<open>
  C5. Along every run from the initial state, if every poll reply to a closure with a
  truthy \<open>delta\<close> reports a length, and no reported length is smaller than an earlier
  one, then the closure's watermark is a number at every moment, starts at 0 and never
  decreases.
\<close>

theorem watermark_nondecreasing:
  assumes "reported c es = map Some ns" and "sorted ns"
  shows "\<exists>ws. watermarks c es state0 = map Some ws \<and> sorted ws \<and> (ws \<noteq> [] \<longrightarrow> hd ws = 0)"
proof -
  have "\<not> c < length (pollers state0)" by (simp add: state0_def)
  from watermarks_unborn [OF this assms] show ?thesis .
qed

theorem watermark_nondecreasing_witness:
  "reported 0 run_streamed = map Some [5] \<and> sorted [5 :: nat]
   \<and> watermarks 0 run_streamed state0 = [Some 0, Some 5, Some 5, Some 5]
   \<and> (\<exists>ws. watermarks 0 run_streamed state0 = map Some ws \<and> sorted ws
          \<and> (ws \<noteq> [] \<longrightarrow> hd ws = 0))"
proof -
  have r: "reported 0 run_streamed = map Some [5]"
    by code_simp
  have s: "sorted [5 :: nat]"
    by simp
  have w: "watermarks 0 run_streamed state0 = [Some 0, Some 5, Some 5, Some 5]"
    by code_simp
  from r s w watermark_nondecreasing [OF r s] show ?thesis
    by blast
qed


subsection \<open>The renderer on plain text and on code\<close>
































end
